theory Spec2Isabelle
  imports Main "HOL-Library.Multiset"
begin

section \<open>Python values the program computes with\<close>

text \<open>
  The program \<^verbatim>\<open>parse_data.py\<close> downloads leaderboard pages, extracts tuples of
  strings from them with BeautifulSoup and shapes the tuples into two pandas tables.
  A Python \<^verbatim>\<open>str\<close> is a \<open>string\<close> here (code points below 256), a Python \<^verbatim>\<open>int\<close>
  is an \<open>int\<close>, and every exception the code can raise is a value of \<open>error\<close>.
\<close>

datatype error =
    AttributeError
  | ValueError
  | KeyError
  | FileNotFoundError
  | NotModelled
    \<comment> \<open>not a Python exception: the input takes a pandas path this development leaves
        out (a column that is not made of 64-bit integers, a duration that is not
        written \<^verbatim>\<open>HH:MM:SS\<close>); nothing is stated about the program there\<close>

subsection \<open>Sequencing of computations that may raise\<close>

fun mapM :: "('a \<Rightarrow> error + 'b) \<Rightarrow> 'a list \<Rightarrow> error + 'b list" where
  "mapM f [] = Inr []"
| "mapM f (x # xs) =
     (case f x of
        Inl e \<Rightarrow> Inl e
      | Inr y \<Rightarrow> (case mapM f xs of Inl e \<Rightarrow> Inl e | Inr ys \<Rightarrow> Inr (y # ys)))"

definition bind :: "error + 'a \<Rightarrow> ('a \<Rightarrow> error + 'b) \<Rightarrow> error + 'b" where
  "bind m f = (case m of Inl e \<Rightarrow> Inl e | Inr x \<Rightarrow> f x)"

definition enumerate_list :: "'a list \<Rightarrow> (nat \<times> 'a) list" where
  "enumerate_list xs = zip [0..<length xs] xs"

subsection \<open>String methods\<close>

definition whitespace :: "char list" where
  "whitespace = [CHR 0x09, CHR 0x0A, CHR 0x0B, CHR 0x0C, CHR 0x0D,
                 CHR 0x1C, CHR 0x1D, CHR 0x1E, CHR 0x1F, CHR 0x20, CHR 0x85, CHR 0xA0]"

definition isspace :: "char \<Rightarrow> bool" where
  "isspace c = (c \<in> set whitespace)"

definition isdigit :: "char \<Rightarrow> bool" where
  "isdigit c = (c \<in> set ''0123456789'')"

text \<open>\<^verbatim>\<open>s.strip()\<close>: leading and trailing whitespace removed.\<close>

definition strip :: "string \<Rightarrow> string" where
  "strip s = rev (dropWhile isspace (rev (dropWhile isspace s)))"

text \<open>\<^verbatim>\<open>s.split()\<close>: the maximal runs of characters that are not whitespace.\<close>

fun split_acc :: "string \<Rightarrow> string \<Rightarrow> string list" where
  "split_acc w [] = (if w = [] then [] else [rev w])"
| "split_acc w (c # cs) =
     (if isspace c then (if w = [] then split_acc [] cs else rev w # split_acc [] cs)
      else split_acc (c # w) cs)"

definition split :: "string \<Rightarrow> string list" where
  "split s = split_acc [] s"

text \<open>The slices \<^verbatim>\<open>s[:-1]\<close> and \<^verbatim>\<open>s[-8:]\<close>; neither raises, also on a short string.\<close>

definition all_but_last :: "string \<Rightarrow> string" where
  "all_but_last s = take (length s - 1) s"

definition last8 :: "string \<Rightarrow> string" where
  "last8 s = drop (length s - 8) s"

text \<open>\<^verbatim>\<open>str(n)\<close> of an integer, and \<^verbatim>\<open>s.zfill(width)\<close>.\<close>

definition digit_char :: "nat \<Rightarrow> char" where
  "digit_char d = ''0123456789'' ! (d mod 10)"

fun str_nat :: "nat \<Rightarrow> string" where
  "str_nat n = (if n < 10 then [digit_char n] else str_nat (n div 10) @ [digit_char n])"

declare str_nat.simps [simp del]

definition str_int :: "int \<Rightarrow> string" where
  "str_int i = (if i < 0 then CHR ''-'' # str_nat (nat (- i)) else str_nat (nat i))"

definition zfill :: "nat \<Rightarrow> string \<Rightarrow> string" where
  "zfill width s =
     (if width \<le> length s then s
      else (case s of
              [] \<Rightarrow> replicate width CHR ''0''
            | c # rest \<Rightarrow>
                if c = CHR ''+'' \<or> c = CHR ''-''
                then c # replicate (width - length s) CHR ''0'' @ rest
                else replicate (width - length s) CHR ''0'' @ s))"

text \<open>
  \<^verbatim>\<open>str(b)\<close> of a \<^verbatim>\<open>bytes\<close> object is its \<^verbatim>\<open>repr\<close>: the letter b, a quote, the
  bytes with the quote, the backslash and everything outside printable ASCII escaped,
  and the quote again. The quote is the double quote exactly when the bytes hold a
  single quote and no double quote.
\<close>

definition hex_digit :: "nat \<Rightarrow> char" where
  "hex_digit d = ''0123456789abcdef'' ! (d mod 16)"

definition repr_byte :: "char \<Rightarrow> char \<Rightarrow> string" where
  "repr_byte quote c =
     (if c = quote \<or> c = CHR 0x5C then [CHR 0x5C, c]
      else if c = CHR 0x09 then [CHR 0x5C, CHR ''t'']
      else if c = CHR 0x0A then [CHR 0x5C, CHR ''n'']
      else if c = CHR 0x0D then [CHR 0x5C, CHR ''r'']
      else if (of_char c :: nat) < 32 \<or> 127 \<le> (of_char c :: nat)
        then [CHR 0x5C, CHR ''x'', hex_digit (of_char c div 16), hex_digit (of_char c)]
      else [c])"

definition str_bytes :: "string \<Rightarrow> string" where
  "str_bytes b =
     (let quote = (if CHR 0x27 \<in> set b \<and> CHR 0x22 \<notin> set b then CHR 0x22 else CHR 0x27)
      in CHR ''b'' # quote # concat (map (repr_byte quote) b) @ [quote])"

section \<open>The parsed page\<close>

text \<open>
  BeautifulSoup turns a page into a tree of tags and strings. Of a tag the program
  reads the name, the classes and the children. The HTML parser itself is a
  parameter \<open>soup :: string \<Rightarrow> node\<close> of the functions that read files.
\<close>

datatype node =
    NavigableString string
  | Tag string "string list" "node list"

fun descendants :: "node \<Rightarrow> node list" where
  "descendants (NavigableString s) = []"
| "descendants (Tag name classes kids) = concat (map (\<lambda>k. k # descendants k) kids)"

fun tag_named :: "string \<Rightarrow> node \<Rightarrow> bool" where
  "tag_named n (NavigableString s) = False"
| "tag_named n (Tag name classes kids) = (name = n)"

fun has_class :: "string \<Rightarrow> node \<Rightarrow> bool" where
  "has_class c (NavigableString s) = False"
| "has_class c (Tag name classes kids) = (c \<in> set classes)"

text \<open>\<^verbatim>\<open>tag.find_all(name)\<close>, \<^verbatim>\<open>tag.find(...)\<close> (and \<^verbatim>\<open>tag.main\<close>, \<^verbatim>\<open>tag.pre\<close>, which are
  \<^verbatim>\<open>tag.find('main')\<close> and \<^verbatim>\<open>tag.find('pre')\<close>): descendants in document order.\<close>

definition find_all :: "string \<Rightarrow> node \<Rightarrow> node list" where
  "find_all n t = filter (tag_named n) (descendants t)"

definition find_tag :: "string \<Rightarrow> node \<Rightarrow> node option" where
  "find_tag n t = List.find (tag_named n) (descendants t)"

definition find_class :: "string \<Rightarrow> node \<Rightarrow> node option" where
  "find_class c t = List.find (has_class c) (descendants t)"

text \<open>\<^verbatim>\<open>tag.string\<close>: the string of a tag with exactly one child, looked up through
  nested only children; \<^verbatim>\<open>None\<close> otherwise.\<close>

fun string_of :: "node \<Rightarrow> string option" where
  "string_of (NavigableString s) = Some s"
| "string_of (Tag name classes [k]) = string_of k"
| "string_of (Tag name classes kids) = None"

text \<open>\<^verbatim>\<open>tag.getText()\<close>: all strings below the tag, concatenated.\<close>

fun getText :: "node \<Rightarrow> string" where
  "getText (NavigableString s) = s"
| "getText (Tag name classes kids) = concat (map getText kids)"

section \<open>Extraction of the daily leaderboard\<close>

text \<open>
  \<^verbatim>\<open>entry.find(class_=c).string.strip()\<close>: the attribute access on \<^verbatim>\<open>None\<close> raises
  \<^verbatim>\<open>AttributeError\<close> when the entry has no such field or the field has no single string.
\<close>

definition field_text :: "string \<Rightarrow> node \<Rightarrow> error + string" where
  "field_text c entry =
     (case find_class c entry of
        None \<Rightarrow> Inl AttributeError
      | Some f \<Rightarrow> (case string_of f of None \<Rightarrow> Inl AttributeError | Some s \<Rightarrow> Inr (strip s)))"


text \<open>A field of a tuple and a cell of a table: a string, an integer, \<^verbatim>\<open>None\<close>, or
  a duration in whole seconds.\<close>

datatype pyval = Str string | PyInt int | PyNone | Timedelta nat

type_synonym pytuple = "pyval list"

definition daily_tier :: "nat \<Rightarrow> string" where
  "daily_tier i = (if i > 99 then ''first'' else ''second'')"

definition daily_record :: "string \<Rightarrow> string \<Rightarrow> nat \<times> node \<Rightarrow> error + pytuple" where
  "daily_record year day ie =
     (case field_text ''leaderboard-position'' (snd ie) of
        Inl e \<Rightarrow> Inl e
      | Inr p \<Rightarrow>
          (case field_text ''leaderboard-time'' (snd ie) of
             Inl e \<Rightarrow> Inl e
           | Inr t \<Rightarrow>
               Inr [Str year, Str day, Str (daily_tier (fst ie)),
                    Str (all_but_last p), Str (last8 t)]))"



section \<open>Extraction of the yearly statistics\<close>

text \<open>The list comprehension of \<^verbatim>\<open>parse_yearly\<close> over one parsed page: the year and the
  first three words of the text of every anchor below \<^verbatim>\<open>page.main.pre\<close>.\<close>

definition yearly_record :: "string \<Rightarrow> nat \<times> node \<Rightarrow> pytuple" where
  "yearly_record year ie = Str year # map Str (take 3 (split (getText (snd ie))))"

definition parse_yearly_page :: "string \<Rightarrow> node \<Rightarrow> error + pytuple list" where
  "parse_yearly_page year page =
     (case find_tag ''main'' page of
        None \<Rightarrow> Inl AttributeError
      | Some m \<Rightarrow>
          (case find_tag ''pre'' m of
             None \<Rightarrow> Inl AttributeError
           | Some pre \<Rightarrow> Inr (map (yearly_record year) (enumerate_list (find_all ''a'' pre)))))"

section \<open>Tables\<close>

text \<open>
  A pandas \<^verbatim>\<open>Series\<close> is its dtype and its cells, a \<^verbatim>\<open>DataFrame\<close> the list of its
  named columns. Integer columns are \<^verbatim>\<open>int64\<close>: their cells lie in the 64-bit range
  and their sum wraps around.
\<close>

datatype dtype = object | int64 | timedelta64

datatype series = Series dtype "pyval list"

type_synonym frame = "(string \<times> series) list"

fun dtype_of :: "series \<Rightarrow> dtype" where
  "dtype_of (Series dt cs) = dt"

fun cells :: "series \<Rightarrow> pyval list" where
  "cells (Series dt cs) = cs"

definition nrows :: "frame \<Rightarrow> nat" where
  "nrows df = (case df of [] \<Rightarrow> 0 | (c, s) # rest \<Rightarrow> length (cells s))"

definition rows_of :: "frame \<Rightarrow> pyval list list" where
  "rows_of df = map (\<lambda>i. map (\<lambda>cs. cells (snd cs) ! i) df) [0..<nrows df]"

definition schema :: "frame \<Rightarrow> (string \<times> dtype) list" where
  "schema df = map (\<lambda>cs. (fst cs, dtype_of (snd cs))) df"

definition in_int64 :: "int \<Rightarrow> bool" where
  "in_int64 i = (- (2 ^ 63) \<le> i \<and> i < 2 ^ 63)"

definition wrap64 :: "int \<Rightarrow> int" where
  "wrap64 i = (i + 2 ^ 63) mod 2 ^ 64 - 2 ^ 63"

subsection \<open>The constructor\<close>

text \<open>
  \<^verbatim>\<open>pd.DataFrame(data, columns=names)\<close> on a list of tuples. An empty list gives the
  named columns with no cells and dtype object. Otherwise the width of the data is the
  length of its longest tuple, shorter tuples are filled with \<^verbatim>\<open>None\<close>, and a width
  other than the number of names raises \<^verbatim>\<open>ValueError\<close>.
\<close>

definition pad_row :: "nat \<Rightarrow> pytuple \<Rightarrow> pytuple" where
  "pad_row k r = r @ replicate (k - length r) PyNone"

fun is_str :: "pyval \<Rightarrow> bool" where
  "is_str (Str s) = True"
| "is_str v = False"

fun is_int64 :: "pyval \<Rightarrow> bool" where
  "is_int64 (PyInt i) = in_int64 i"
| "is_int64 v = False"

definition infer_dtype :: "pyval list \<Rightarrow> error + dtype" where
  "infer_dtype col =
     (if list_ex is_str col then Inr object
      else if list_all (\<lambda>v. v = PyNone) col then Inr object
      else if list_all is_int64 col then Inr int64
      else Inl NotModelled)"

definition width :: "pytuple list \<Rightarrow> nat" where
  "width data = foldr (\<lambda>r m. max (length r) m) data 0"

definition DataFrame :: "pytuple list \<Rightarrow> string list \<Rightarrow> error + frame" where
  "DataFrame data names =
     (if data = [] then Inr (map (\<lambda>c. (c, Series object [])) names)
      else if width data \<noteq> length names then Inl ValueError
      else mapM (\<lambda>jc.
             let col = map (\<lambda>r. pad_row (width data) r ! fst jc) data
             in bind (infer_dtype col) (\<lambda>dt. Inr (snd jc, Series dt col)))
           (enumerate_list names))"

subsection \<open>Columns\<close>

definition get_col :: "frame \<Rightarrow> string \<Rightarrow> error + series" where
  "get_col df c = (case map_of df c of None \<Rightarrow> Inl KeyError | Some s \<Rightarrow> Inr s)"

fun set_col :: "frame \<Rightarrow> string \<Rightarrow> series \<Rightarrow> frame" where
  "set_col [] c s = [(c, s)]"
| "set_col ((c', s') # df) c s = (if c' = c then (c, s) # df else (c', s') # set_col df c s)"

text \<open>\<^verbatim>\<open>df[names]\<close> and \<^verbatim>\<open>df[names] = other\<close>.\<close>

definition select :: "frame \<Rightarrow> string list \<Rightarrow> error + frame" where
  "select df names = mapM (\<lambda>c. bind (get_col df c) (\<lambda>s. Inr (c, s))) names"

definition assign :: "frame \<Rightarrow> string list \<Rightarrow> frame \<Rightarrow> frame" where
  "assign df names other = fold (\<lambda>(c, cs) d. set_col d c (snd cs)) (zip names other) df"

subsection \<open>Conversions\<close>

text \<open>
  \<^verbatim>\<open>pd.to_numeric\<close>. A string of decimal digits becomes its value; the integer column
  stays inside this development while every value is in the 64-bit range. Any other
  cell (a sign, a fraction, blanks, a word, \<^verbatim>\<open>None\<close>) is left out.
\<close>

definition digit_val :: "char \<Rightarrow> nat" where
  "digit_val c = of_char c - 48"

definition int_literal :: "string \<Rightarrow> int option" where
  "int_literal s =
     (if s \<noteq> [] \<and> list_all isdigit s
      then Some (foldl (\<lambda>a c. 10 * a + int (digit_val c)) 0 s) else None)"

definition to_numeric_cell :: "pyval \<Rightarrow> error + pyval" where
  "to_numeric_cell v =
     (case v of
        Str s \<Rightarrow>
          (case int_literal s of
             None \<Rightarrow> Inl NotModelled
           | Some i \<Rightarrow> if in_int64 i then Inr (PyInt i) else Inl NotModelled)
      | PyInt i \<Rightarrow> if in_int64 i then Inr (PyInt i) else Inl NotModelled
      | PyNone \<Rightarrow> Inl NotModelled
      | Timedelta d \<Rightarrow> Inl NotModelled)"

definition numeric :: "pyval \<Rightarrow> bool" where
  "numeric v = (case to_numeric_cell v of Inl e \<Rightarrow> False | Inr c \<Rightarrow> True)"

definition value_of :: "pyval \<Rightarrow> int" where
  "value_of v = (case to_numeric_cell v of Inr (PyInt i) \<Rightarrow> i | _ \<Rightarrow> 0)"

definition to_numeric :: "series \<Rightarrow> error + series" where
  "to_numeric s =
     (case dtype_of s of
        int64 \<Rightarrow> Inr s
      | object \<Rightarrow> bind (mapM to_numeric_cell (cells s)) (\<lambda>cs. Inr (Series int64 cs))
      | timedelta64 \<Rightarrow> Inl NotModelled)"

text \<open>
  \<^verbatim>\<open>df.apply(pd.to_numeric)\<close>: the function is applied to every column, except that on
  a frame without rows pandas does not call it on the columns and returns a copy of the
  frame.
\<close>

definition apply_to_numeric :: "frame \<Rightarrow> error + frame" where
  "apply_to_numeric df =
     (if nrows df = 0 then Inr df
      else mapM (\<lambda>cs. bind (to_numeric (snd cs)) (\<lambda>s. Inr (fst cs, s))) df)"

text \<open>\<^verbatim>\<open>pd.to_timedelta\<close> on a column of strings written \<^verbatim>\<open>HH:MM:SS\<close>.\<close>

definition two_digits :: "char \<Rightarrow> char \<Rightarrow> nat option" where
  "two_digits a b = (if isdigit a \<and> isdigit b then Some (10 * digit_val a + digit_val b) else None)"

definition to_timedelta_cell :: "pyval \<Rightarrow> error + pyval" where
  "to_timedelta_cell v =
     (case v of
        Str [h1, h0, c1, m1, m0, c2, s1, s0] \<Rightarrow>
          (case (two_digits h1 h0, two_digits m1 m0, two_digits s1 s0) of
             (Some h, Some m, Some s) \<Rightarrow>
               if c1 = CHR '':'' \<and> c2 = CHR '':'' \<and> m < 60 \<and> s < 60
               then Inr (Timedelta (3600 * h + 60 * m + s)) else Inl NotModelled
           | _ \<Rightarrow> Inl NotModelled)
      | _ \<Rightarrow> Inl NotModelled)"

definition to_timedelta :: "series \<Rightarrow> error + series" where
  "to_timedelta s = bind (mapM to_timedelta_cell (cells s)) (\<lambda>cs. Inr (Series timedelta64 cs))"

subsection \<open>Addition and reshaping\<close>

fun add_cell :: "pyval \<Rightarrow> pyval \<Rightarrow> pyval" where
  "add_cell (PyInt a) (PyInt b) = PyInt (wrap64 (a + b))"
| "add_cell a b = PyNone"

text \<open>\<^verbatim>\<open>a.add(b)\<close> of two columns of one length: 64-bit addition of integer columns; of
  two columns without cells, a column without cells.\<close>

definition series_add :: "series \<Rightarrow> series \<Rightarrow> error + series" where
  "series_add a b =
     (if dtype_of a = int64 \<and> dtype_of b = int64 \<and> length (cells a) = length (cells b)
        then Inr (Series int64 (map2 add_cell (cells a) (cells b)))
      else if cells a = [] \<and> cells b = [] \<and> dtype_of a = object \<and> dtype_of b = object
        then Inr (Series object [])
      else Inl NotModelled)"

text \<open>
  \<^verbatim>\<open>df.melt(id_vars, value_vars, var_name=..., value_name=...)\<close>: one block of rows per
  value column, in the order of \<^verbatim>\<open>value_vars\<close>; inside a block the rows keep their order.
  The identifier columns are repeated once per block, the variable column names the
  block, the value column is the value columns one after the other.
\<close>

definition common_dtype :: "series list \<Rightarrow> error + dtype" where
  "common_dtype ss =
     (case ss of
        [] \<Rightarrow> Inr object
      | s # rest \<Rightarrow> if list_all (\<lambda>t. dtype_of t = dtype_of s) rest then Inr (dtype_of s)
                   else Inl NotModelled)"

definition melt :: "frame \<Rightarrow> string list \<Rightarrow> string list \<Rightarrow> string \<Rightarrow> string \<Rightarrow> error + frame" where
  "melt df id_vars value_vars var_name value_name =
     bind (mapM (get_col df) id_vars) (\<lambda>ids.
     bind (mapM (get_col df) value_vars) (\<lambda>vals.
     bind (common_dtype vals) (\<lambda>dt.
       Inr (map2 (\<lambda>c s. (c, Series (dtype_of s) (concat (map (\<lambda>v. cells s) value_vars))))
              id_vars ids
            @ [(var_name,
                Series object (concat (map (\<lambda>v. replicate (nrows df) (Str v)) value_vars))),
               (value_name, Series dt (concat (map cells vals)))]))))"

section \<open>The two tables\<close>

text \<open>The block \<^verbatim>\<open># Do some formatting\<close> of \<^verbatim>\<open>make_daily\<close>.\<close>

definition make_daily_frame :: "pytuple list \<Rightarrow> error + frame" where
  "make_daily_frame records =
     bind (DataFrame records [''year'', ''day'', ''completion'', ''position'', ''time'']) (\<lambda>df.
     bind (select df [''year'', ''day'', ''position'']) (\<lambda>sub.
     bind (apply_to_numeric sub) (\<lambda>num.
     let df1 = assign df [''year'', ''day'', ''position''] num in
     bind (get_col df1 ''time'') (\<lambda>t.
     bind (to_timedelta t) (\<lambda>td.
       Inr (set_col df1 ''time'' td))))))"

text \<open>The block \<^verbatim>\<open># Do some formatting\<close> of \<^verbatim>\<open>make_yearly\<close>.\<close>

definition make_yearly_frame :: "pytuple list \<Rightarrow> error + frame" where
  "make_yearly_frame yearly =
     bind (DataFrame yearly [''year'', ''day'', ''second'', ''first'']) (\<lambda>df.
     bind (apply_to_numeric df) (\<lambda>num.
     bind (get_col num ''second'') (\<lambda>second.
     bind (get_col num ''first'') (\<lambda>first.
     bind (series_add second first) (\<lambda>total.
     bind (melt (set_col num ''first'' total) [''year'', ''day''] [''first'', ''second'']
             ''completion'' ''count'') (\<lambda>long.
     bind (select long [''year'', ''day'', ''count'']) (\<lambda>sub.
     bind (apply_to_numeric sub) (\<lambda>sub'.
       Inr (assign long [''year'', ''day'', ''count''] sub')))))))))"


section \<open>Files, network and the four entry points\<close>

text \<open>
  What the program reads and writes: the two directories of downloaded pages (absent
  until created; a directory lists its files in some order), the two parquet files of
  the working directory, the lines printed, the requests sent and the seconds slept.
  The working directory is taken to be the directory of the script, where
  \<^verbatim>\<open>download_daily\<close> and \<^verbatim>\<open>download_yearly\<close> create the two directories. A parquet file
  is taken to hold the table written to it.
\<close>

type_synonym directory = "(string \<times> string) list"

record world =
  daily_data :: "directory option"
  yearly_data :: "directory option"
  parquet :: "string \<rightharpoonup> frame"
  stdout :: "string list"
  requested :: "string list"
  slept :: nat

text \<open>\<^verbatim>\<open>requests.get(url)\<close> returns a response with a status code and a body, or raises.\<close>

datatype reply = Response int string | Raised string

fun write_file :: "directory \<Rightarrow> string \<Rightarrow> string \<Rightarrow> directory" where
  "write_file [] name text = [(name, text)]"
| "write_file ((n, t) # d) name text =
     (if n = name then (name, text) # d else (n, t) # write_file d name text)"

text \<open>The text of a file of a directory, if the directory and the file exist.\<close>

definition stored :: "directory option \<Rightarrow> string \<Rightarrow> string option" where
  "stored dir name = (case dir of None \<Rightarrow> None | Some d \<Rightarrow> map_of d name)"

definition print :: "string \<Rightarrow> world \<Rightarrow> world" where
  "print line w = w\<lparr>stdout := stdout w @ [line]\<rparr>"

definition sleep :: "nat \<Rightarrow> world \<Rightarrow> world" where
  "sleep n w = w\<lparr>slept := slept w + n\<rparr>"

definition no_such_file :: "string \<Rightarrow> string" where
  "no_such_file path = ''[Errno 2] No such file or directory: '' @ [CHR 0x27] @ path @ [CHR 0x27]"

subsection \<open>Downloading\<close>

definition daily_url :: "int \<Rightarrow> int \<Rightarrow> string" where
  "daily_url year day =
     ''http://www.adventofcode.com/'' @ str_int year @ ''/leaderboard/day/'' @ str_int day"

definition daily_file :: "int \<Rightarrow> int \<Rightarrow> string" where
  "daily_file year day = str_int year @ ''-'' @ zfill 2 (str_int day) @ ''.html''"

text \<open>One round of the inner loop of \<^verbatim>\<open>download_daily\<close>.\<close>

definition download_day :: "(string \<Rightarrow> reply) \<Rightarrow> int \<Rightarrow> int \<Rightarrow> world \<Rightarrow> world" where
  "download_day net year day w =
     (let w1 = w\<lparr>requested := requested w @ [daily_url year day]\<rparr>;
          failed = (\<lambda>e. print (''Failed download/read of '' @ str_int year @ ''-'' @ str_int day
                              @ '' with: '' @ e) w1);
          w2 = (case net (daily_url year day) of
                  Raised e \<Rightarrow> failed e
                | Response status content \<Rightarrow>
                    if status = 200 then
                      (case daily_data w1 of
                         None \<Rightarrow> failed (no_such_file (''./daily_data/'' @ daily_file year day))
                       | Some d \<Rightarrow>
                           print (''Downloaded year '' @ str_int year @ '', day '' @ str_int day)
                             (w1\<lparr>daily_data :=
                                   Some (write_file d (daily_file year day) (str_bytes content))\<rparr>))
                    else print (''Response for request '' @ str_int year @ ''-'' @ str_int day
                                @ '' is '' @ str_int status) w1)
      in sleep 1 w2)"

definition download_daily :: "(string \<Rightarrow> reply) \<Rightarrow> int \<Rightarrow> int \<Rightarrow> world \<Rightarrow> world" where
  "download_daily net first_year last_year w =
     (let w1 = print (''Requesting all information for year '' @ str_int first_year @ '' to ''
                      @ str_int last_year) w;
          w2 = (if daily_data w1 = None then w1\<lparr>daily_data := Some []\<rparr> else w1)
      in fold (\<lambda>year. fold (\<lambda>day. download_day net year day) [1..25])
           [first_year..last_year] w2)"

definition yearly_url :: "int \<Rightarrow> string" where
  "yearly_url year = ''http://www.adventofcode.com/'' @ str_int year @ ''/stats''"

definition yearly_file :: "int \<Rightarrow> string" where
  "yearly_file year = str_int year @ ''-stats.html''"

text \<open>One round of the loop of \<^verbatim>\<open>download_yearly\<close>.\<close>

definition download_year :: "(string \<Rightarrow> reply) \<Rightarrow> int \<Rightarrow> world \<Rightarrow> world" where
  "download_year net year w =
     (let w1 = w\<lparr>requested := requested w @ [yearly_url year]\<rparr>;
          failed = (\<lambda>e. print (''Failed download/read of '' @ str_int year @ '' stats with: '' @ e)
                         w1);
          w2 = (case net (yearly_url year) of
                  Raised e \<Rightarrow> failed e
                | Response status content \<Rightarrow>
                    if status = 200 then
                      (case yearly_data w1 of
                         None \<Rightarrow> failed (no_such_file (''./yearly_data/'' @ yearly_file year))
                       | Some d \<Rightarrow>
                           print (''Downloaded year '' @ str_int year @ '' stats'')
                             (w1\<lparr>yearly_data :=
                                   Some (write_file d (yearly_file year) (str_bytes content))\<rparr>))
                    else print (''Response for request '' @ str_int year @ '' stats is ''
                                @ str_int status) w1)
      in sleep 1 w2)"

definition download_yearly :: "(string \<Rightarrow> reply) \<Rightarrow> int \<Rightarrow> int \<Rightarrow> world \<Rightarrow> world" where
  "download_yearly net first_year last_year w =
     (let w1 = (if yearly_data w = None then w\<lparr>yearly_data := Some []\<rparr> else w);
          w2 = print (''Requesting stats information for year '' @ str_int first_year @ '' to ''
                      @ str_int last_year) w1
      in fold (download_year net) [first_year..last_year] w2)"

text \<open>What a reply leaves in the file of its request: the text written on status 200,
  the old content otherwise.\<close>

definition fetched :: "reply \<Rightarrow> string option \<Rightarrow> string option" where
  "fetched r old = (case r of Response status content \<Rightarrow>
                      if status = 200 then Some (str_bytes content) else old
                    | Raised e \<Rightarrow> old)"

abbreviation day_round :: "(string \<Rightarrow> reply) \<Rightarrow> int \<times> int \<Rightarrow> world \<Rightarrow> world" where
  "day_round net p \<equiv> download_day net (fst p) (snd p)"

subsection \<open>Parsing the downloaded files\<close>





subsection \<open>Building, storing and reading back\<close>








section \<open>Concrete pages, tuples and worlds\<close>


definition entry101 :: "string \<Rightarrow> node" where
  "entry101 p = Tag ''div'' [''leaderboard-entry'']
     [Tag ''span'' [''leaderboard-position''] [NavigableString p],
      Tag ''span'' [''leaderboard-time''] [NavigableString ''Dec 01  00:12:34'']]"

definition yearly2 :: "pytuple list" where
  "yearly2 = [[Str ''2015'', Str ''1'', Str ''50'', Str ''10''],
              [Str ''2015'', Str ''2'', Str ''40'', Str ''5'']]"

definition long2 :: frame where
  "long2 = [(''year'', Series int64 [PyInt 2015, PyInt 2015, PyInt 2015, PyInt 2015]),
            (''day'', Series int64 [PyInt 1, PyInt 2, PyInt 1, PyInt 2]),
            (''completion'', Series object [Str ''first'', Str ''first'', Str ''second'', Str ''second'']),
            (''count'', Series int64 [PyInt 60, PyInt 45, PyInt 50, PyInt 40])]"

definition short_page :: node where
  "short_page = Tag ''[document]'' [] [Tag ''main'' []
     [Tag ''pre'' [] [Tag ''a'' [] [NavigableString '' 25  '',
                                   Tag ''span'' [''stats-both''] [NavigableString '' 7276'']]]]]"

definition world0 :: world where
  "world0 = \<lparr>daily_data = None, yearly_data = None, parquet = Map.empty, stdout = [],
             requested = [], slept = 0\<rparr>"

definition net1 :: "string \<Rightarrow> reply" where
  "net1 url =
     (if url = ''http://www.adventofcode.com/2015/leaderboard/day/1'' then Response 404 ''Not Found''
      else if url = ''http://www.adventofcode.com/2015/leaderboard/day/2'' then Raised ''timed out''
      else if url = ''http://www.adventofcode.com/2015/stats'' then Response 500 []
      else if url = ''http://www.adventofcode.com/2016/stats'' then Raised ''reset''
      else Response 200 ''<p>1</p>'')"







section \<open>Properties of the extraction\<close>

lemma mapM_Inr: "(\<And>x. x \<in> set xs \<Longrightarrow> f x = Inr (g x)) \<Longrightarrow> mapM f xs = Inr (map g xs)"
  by (induction xs) auto


lemma enumerate_list_nth: "i < length xs \<Longrightarrow> enumerate_list xs ! i = (i, xs ! i)"
  by (simp add: enumerate_list_def)

lemma length_enumerate_list [simp]: "length (enumerate_list xs) = length xs"
  by (simp add: enumerate_list_def)















text \<open>
  Claim C5, as the code has it. For an entry whose position field holds the string p
  and whose time field holds the string t, the rank is p without surrounding
  whitespace and without its last character, whatever that character is, and the
  elapsed time is the last 8 characters of t without surrounding whitespace (all of
  it when it is shorter).
\<close>

theorem daily_record_rank_and_time:
  assumes "find_class ''leaderboard-position'' entry = Some pf" and "string_of pf = Some p"
    and "find_class ''leaderboard-time'' entry = Some tf" and "string_of tf = Some t"
  shows "\<exists>rank elapsed.
           daily_record year day (i, entry) =
             Inr [Str year, Str day, Str (daily_tier i), Str rank, Str elapsed]
         \<and> (strip p = [] \<longrightarrow> rank = [])
         \<and> (strip p \<noteq> [] \<longrightarrow> strip p = rank @ [last (strip p)])
         \<and> (\<exists>front. strip t = front @ elapsed)
         \<and> length elapsed = min 8 (length (strip t))"
proof -
  have run: "daily_record year day (i, entry) =
      Inr [Str year, Str day, Str (daily_tier i), Str (all_but_last (strip p)),
           Str (last8 (strip t))]"
    using assms by (simp add: daily_record_def field_text_def)
  have r: "strip p \<noteq> [] \<longrightarrow> strip p = all_but_last (strip p) @ [last (strip p)]"
    by (metis all_but_last_def append_butlast_last_id butlast_conv_take)
  have t: "strip t = take (length (strip t) - 8) (strip t) @ last8 (strip t)"
    by (simp add: last8_def)
  have l: "length (last8 (strip t)) = min 8 (length (strip t))"
    by (simp add: last8_def)
  show ?thesis using run r t l by (auto simp: all_but_last_def)
qed

theorem daily_record_rank_and_time_witness:
  "\<exists>rank elapsed.
      daily_record ''2015'' ''01'' (100, entry101 ''  101.'') =
        Inr [Str ''2015'', Str ''01'', Str ''first'', Str rank, Str elapsed]
      \<and> ''101.'' = rank @ ''.'' \<and> (\<exists>front. ''Dec 01  00:12:34'' = front @ elapsed)
      \<and> length elapsed = length ''00:12:34''"
proof -
  have s: "strip ''  101.'' = ''101.''" "strip ''Dec 01  00:12:34'' = ''Dec 01  00:12:34''"
    by (simp_all add: strip_def isspace_def whitespace_def)
  have "find_class ''leaderboard-position'' (entry101 ''  101.'') =
          Some (Tag ''span'' [''leaderboard-position''] [NavigableString ''  101.''])"
    and "string_of (Tag ''span'' [''leaderboard-position''] [NavigableString ''  101.''])
          = Some ''  101.''"
    and "find_class ''leaderboard-time'' (entry101 ''  101.'') =
          Some (Tag ''span'' [''leaderboard-time''] [NavigableString ''Dec 01  00:12:34''])"
    and "string_of (Tag ''span'' [''leaderboard-time''] [NavigableString ''Dec 01  00:12:34''])
          = Some ''Dec 01  00:12:34''"
    by (simp_all add: find_class_def entry101_def)
  from daily_record_rank_and_time [OF this, of "''2015''" "''01''" 100]
  show ?thesis unfolding s by (simp add: daily_tier_def)
qed

text \<open>
  The claim as written fails on a position field without trailing punctuation: the
  field 101 gives the rank 10.
\<close>

theorem rank_without_punctuation_counterexample:
  "daily_record ''2015'' ''01'' (0, entry101 ''101'') =
     Inr [Str ''2015'', Str ''01'', Str ''second'', Str ''10'', Str ''00:12:34'']"
  by (simp add: daily_record_def field_text_def find_class_def entry101_def strip_def
      isspace_def whitespace_def all_but_last_def last8_def daily_tier_def)


section \<open>Properties of the tables\<close>

subsection \<open>Sequencing, cells and widths\<close>

lemma bind_Inr_iff: "bind m f = Inr y \<longleftrightarrow> (\<exists>x. m = Inr x \<and> f x = Inr y)"
  by (cases m) (simp_all add: bind_def)

lemma bind_Inr [simp]: "bind (Inr x) f = f x"
  by (simp add: bind_def)

lemma bind_Inl [simp]: "bind (Inl e) f = Inl e"
  by (simp add: bind_def)

lemma mapM_Cons_Inr:
  "mapM f (x # xs) = Inr zs \<longleftrightarrow> (\<exists>y ys. zs = y # ys \<and> f x = Inr y \<and> mapM f xs = Inr ys)"
  by (auto split: sum.splits)

lemma mapM_Inr_member: "mapM f xs = Inr ys \<Longrightarrow> x \<in> set xs \<Longrightarrow> \<exists>y. f x = Inr y"
  by (induction xs arbitrary: ys) (auto split: sum.splits)

lemma numeric_cell: "numeric v \<Longrightarrow> to_numeric_cell v = Inr (PyInt (value_of v))"
  by (auto simp: numeric_def value_of_def to_numeric_cell_def split: pyval.splits option.splits if_splits)

lemma numeric_in_int64: "numeric v \<Longrightarrow> in_int64 (value_of v)"
  by (auto simp: numeric_def value_of_def to_numeric_cell_def split: pyval.splits option.splits if_splits)

lemma numeric_not_None: "numeric v \<Longrightarrow> v \<noteq> PyNone"
  by (auto simp: numeric_def to_numeric_cell_def)

lemma is_int64_numeric: "is_int64 v \<Longrightarrow> numeric v \<and> PyInt (value_of v) = v"
  by (cases v) (auto simp: numeric_def value_of_def to_numeric_cell_def)

lemma numeric_cases: "numeric v \<Longrightarrow> is_str v \<or> is_int64 v"
  by (cases v) (auto simp: numeric_def to_numeric_cell_def split: if_splits)

lemma width_Cons: "width (r # xs) = max (length r) (width xs)"
  by (simp add: width_def)

lemma width_ge: "r \<in> set xs \<Longrightarrow> length r \<le> width xs"
  by (induction xs) (auto simp: width_Cons width_def)

lemma width_le_iff: "width xs \<le> k \<longleftrightarrow> (\<forall>r \<in> set xs. length r \<le> k)"
  by (induction xs) (auto simp: width_Cons width_def)

lemma width_const:
  assumes "xs \<noteq> []" and "\<forall>r \<in> set xs. length r = k"
  shows "width xs = k"
proof (rule order_antisym)
  show "width xs \<le> k" using assms by (simp add: width_le_iff)
  from assms obtain r where "r \<in> set xs" "length r = k" by (cases xs) auto
  then show "k \<le> width xs" using width_ge by blast
qed

lemma width_mset:
  assumes "mset xs = mset ys"
  shows "width xs = width ys"
proof -
  have "set xs = set ys" using assms by (rule mset_eq_setD)
  then have "width xs \<le> k \<longleftrightarrow> width ys \<le> k" for k
    by (simp add: width_le_iff)
  then show ?thesis by (meson order_antisym order_refl)
qed

lemma pad_row_id: "length r = k \<Longrightarrow> pad_row k r = r"
  by (simp add: pad_row_def)

lemma pad_row_short: "length r < k \<Longrightarrow> pad_row k r ! length r = PyNone"
  by (simp add: pad_row_def nth_append)

lemma infer_dtype_numeric:
  assumes "col \<noteq> []" and "\<forall>v \<in> set col. numeric v"
  shows "infer_dtype col = Inr (if list_ex is_str col then object else int64)"
proof (cases "list_ex is_str col")
  case True
  then show ?thesis by (simp add: infer_dtype_def)
next
  case False
  with assms have ints: "list_all is_int64 col"
    by (auto simp: list_all_iff list_ex_iff dest: numeric_cases)
  from assms obtain v where "v \<in> set col" "v \<noteq> PyNone"
    by (cases col) (auto dest: numeric_not_None)
  then have "\<not> list_all (\<lambda>v. v = PyNone) col"
    by (auto simp: list_all_iff)
  with False ints show ?thesis by (simp add: infer_dtype_def)
qed

lemma to_numeric_numeric:
  assumes "\<forall>v \<in> set col. numeric v"
  shows "to_numeric (Series (if list_ex is_str col then object else int64) col)
           = Inr (Series int64 (map (\<lambda>v. PyInt (value_of v)) col))"
proof (cases "list_ex is_str col")
  case True
  have "mapM to_numeric_cell col = Inr (map (\<lambda>v. PyInt (value_of v)) col)"
    using assms by (intro mapM_Inr) (simp add: numeric_cell)
  with True show ?thesis by (simp add: to_numeric_def)
next
  case False
  with assms have "\<forall>v \<in> set col. is_int64 v"
    by (auto simp: list_ex_iff dest: numeric_cases)
  then have "map (\<lambda>v. PyInt (value_of v)) col = col"
    by (simp add: map_idI is_int64_numeric)
  with False show ?thesis by (simp add: to_numeric_def)
qed

lemma fst_enumerate_list: "jc \<in> set (enumerate_list xs) \<Longrightarrow> fst jc < length xs"
  by (cases jc) (auto simp: enumerate_list_def dest: set_zip_leftD)

lemma enumerate_list4: "enumerate_list [a, b, c, d] = [(0, a), (1, b), (2, c), (3, d)]"
  by (simp add: enumerate_list_def upt_rec)

lemma DataFrame_rect:
  assumes ne: "data \<noteq> []" and len: "\<forall>r \<in> set data. length r = length names"
    and dt: "\<And>j. j < length names \<Longrightarrow> infer_dtype (map (\<lambda>r. r ! j) data) = Inr (dt j)"
  shows "DataFrame data names =
           Inr (map (\<lambda>jc. (snd jc, Series (dt (fst jc)) (map (\<lambda>r. r ! fst jc) data)))
                  (enumerate_list names))"
proof -
  have w: "width data = length names" using ne len by (rule width_const)
  have col: "map (\<lambda>r. pad_row (length names) r ! j) data = map (\<lambda>r. r ! j) data" for j
    using len by (simp add: pad_row_id)
  show ?thesis
    unfolding DataFrame_def w col using ne
    by (simp add: mapM_Inr dt fst_enumerate_list)
qed

lemma make_yearly_frame_numeric:
  assumes ne: "yearly \<noteq> []"
    and rows: "\<forall>r \<in> set yearly. length r = 4 \<and> (\<forall>v \<in> set r. numeric v)"
  shows "make_yearly_frame yearly = Inr
     [(''year'', Series int64 (map (\<lambda>r. PyInt (value_of (r ! 0))) yearly
                              @ map (\<lambda>r. PyInt (value_of (r ! 0))) yearly)),
      (''day'', Series int64 (map (\<lambda>r. PyInt (value_of (r ! 1))) yearly
                             @ map (\<lambda>r. PyInt (value_of (r ! 1))) yearly)),
      (''completion'', Series object (replicate (length yearly) (Str ''first'')
                                     @ replicate (length yearly) (Str ''second''))),
      (''count'', Series int64
         (map (\<lambda>r. PyInt (wrap64 (value_of (r ! 2) + value_of (r ! 3)))) yearly
          @ map (\<lambda>r. PyInt (value_of (r ! 2))) yearly))]"
proof -
  let ?names = "[''year'', ''day'', ''second'', ''first'']"
  let ?col = "\<lambda>j. map (\<lambda>r. r ! j) yearly"
  let ?num = "\<lambda>j. map (\<lambda>r. PyInt (value_of (r ! j))) yearly"
  let ?dt = "\<lambda>j. if list_ex is_str (?col j) then object else int64"
  have cells: "\<forall>v \<in> set (?col j). numeric v" if "j < 4" for j
    using rows that by auto
  have len: "\<forall>r \<in> set yearly. length r = length ?names"
    using rows by simp
  have "infer_dtype (?col j) = Inr (?dt j)" if "j < length ?names" for j
    using ne cells [of j] that by (intro infer_dtype_numeric) simp_all
  from DataFrame_rect [OF ne len this]
  have df: "DataFrame yearly ?names =
      Inr [(''year'', Series (?dt 0) (?col 0)), (''day'', Series (?dt 1) (?col 1)),
           (''second'', Series (?dt 2) (?col 2)), (''first'', Series (?dt 3) (?col 3))]"
    by (simp add: enumerate_list4)
  have tn: "to_numeric (Series (?dt j) (?col j)) = Inr (Series int64 (?num j))" if "j < 4" for j
    using to_numeric_numeric [OF cells [OF that]] by (simp add: comp_def)
  have num: "apply_to_numeric
       [(''year'', Series (?dt 0) (?col 0)), (''day'', Series (?dt 1) (?col 1)),
        (''second'', Series (?dt 2) (?col 2)), (''first'', Series (?dt 3) (?col 3))] =
      Inr [(''year'', Series int64 (?num 0)), (''day'', Series int64 (?num 1)),
           (''second'', Series int64 (?num 2)), (''first'', Series int64 (?num 3))]"
    using ne tn [of 0] tn [of 1] tn [of 2] tn [of 3]
    by (simp add: apply_to_numeric_def nrows_def)
  have add: "map2 add_cell (?num 2) (?num 3) =
               map (\<lambda>r. PyInt (wrap64 (value_of (r ! 2) + value_of (r ! 3)))) yearly"
    by (simp add: map2_map_map)
  show ?thesis
    unfolding make_yearly_frame_def df bind_Inr num
    using ne
    by (simp add: get_col_def series_add_def add melt_def common_dtype_def nrows_def
        select_def assign_def apply_to_numeric_def to_numeric_def)
qed

lemma make_yearly_frame_empty:
  "make_yearly_frame [] = Inr
     [(''year'', Series object []), (''day'', Series object []),
      (''completion'', Series object []), (''count'', Series object [])]"
  by (simp add: make_yearly_frame_def DataFrame_def apply_to_numeric_def nrows_def get_col_def
      series_add_def melt_def common_dtype_def select_def assign_def)

lemma make_daily_frame_empty:
  "make_daily_frame [] = Inr
     [(''year'', Series object []), (''day'', Series object []),
      (''completion'', Series object []), (''position'', Series object []),
      (''time'', Series timedelta64 [])]"
  by (simp add: make_daily_frame_def DataFrame_def apply_to_numeric_def nrows_def get_col_def
      select_def assign_def to_timedelta_def)

lemma wrap64_id: "in_int64 i \<Longrightarrow> wrap64 i = i"
  by (simp add: in_int64_def wrap64_def)

lemma rows_of_long:
  "rows_of [(n0, Series d0 (map f0 xs @ map g0 xs)), (n1, Series d1 (map f1 xs @ map g1 xs)),
            (n2, Series d2 (replicate (length xs) a @ replicate (length xs) b)),
            (n3, Series d3 (map f3 xs @ map g3 xs))]
     = map (\<lambda>x. [f0 x, f1 x, a, f3 x]) xs @ map (\<lambda>x. [g0 x, g1 x, b, g3 x]) xs"
  by (rule nth_equalityI) (auto simp: rows_of_def nrows_def nth_append)

lemma to_numeric_Inr_cells:
  assumes "to_numeric (Series dt col) = Inr s" and "infer_dtype col = Inr dt"
  shows "\<forall>v \<in> set col. numeric v"
proof (cases dt)
  case object
  with assms(1) obtain cs where "mapM to_numeric_cell col = Inr cs"
    by (auto simp: to_numeric_def bind_Inr_iff)
  then show ?thesis
    by (auto simp: numeric_def dest: mapM_Inr_member)
next
  case int64
  with assms(2) have "list_all is_int64 col"
    by (auto simp: infer_dtype_def split: if_splits)
  then show ?thesis
    by (auto simp: list_all_iff is_int64_numeric)
next
  case timedelta64
  with assms(1) show ?thesis by (simp add: to_numeric_def)
qed

lemma make_yearly_frame_Inr_rows:
  assumes ok: "make_yearly_frame yearly = Inr df" and ne: "yearly \<noteq> []"
  shows "\<forall>r \<in> set yearly. length r = 4 \<and> (\<forall>v \<in> set r. numeric v)"
proof -
  let ?col = "\<lambda>j. map (\<lambda>r. pad_row 4 r ! j) yearly"
  from ok obtain df0 num where df0: "DataFrame yearly [''year'', ''day'', ''second'', ''first''] = Inr df0"
    and num: "apply_to_numeric df0 = Inr num"
    by (auto simp: make_yearly_frame_def bind_Inr_iff)
  from df0 ne have w: "width yearly = 4"
    by (auto simp: DataFrame_def split: if_splits)
  from df0 ne w obtain dt0 dt1 dt2 dt3 where
    dts: "infer_dtype (?col 0) = Inr dt0" "infer_dtype (?col 1) = Inr dt1"
         "infer_dtype (?col 2) = Inr dt2" "infer_dtype (?col 3) = Inr dt3"
    and shape: "df0 = [(''year'', Series dt0 (?col 0)), (''day'', Series dt1 (?col 1)),
                       (''second'', Series dt2 (?col 2)), (''first'', Series dt3 (?col 3))]"
    by (auto simp: DataFrame_def enumerate_list4 bind_Inr_iff mapM_Cons_Inr Let_def
        simp del: mapM.simps(2))
  from num ne obtain s0 s1 s2 s3 where
    "to_numeric (Series dt0 (?col 0)) = Inr s0" "to_numeric (Series dt1 (?col 1)) = Inr s1"
    "to_numeric (Series dt2 (?col 2)) = Inr s2" "to_numeric (Series dt3 (?col 3)) = Inr s3"
    unfolding shape
    by (auto simp: apply_to_numeric_def nrows_def bind_Inr_iff mapM_Cons_Inr
        simp del: mapM.simps(2))
  with dts have cols: "\<forall>v \<in> set (?col 0). numeric v" "\<forall>v \<in> set (?col 1). numeric v"
    "\<forall>v \<in> set (?col 2). numeric v" "\<forall>v \<in> set (?col 3). numeric v"
    by (blast dest: to_numeric_Inr_cells)+
  have cell: "numeric (pad_row 4 r ! j)" if "r \<in> set yearly" "j < 4" for r j
  proof -
    from that(2) consider "j = 0" | "j = 1" | "j = 2" | "j = 3" by linarith
    then show ?thesis using cols that(1) by cases auto
  qed
  show ?thesis
  proof
    fix r assume r: "r \<in> set yearly"
    have le: "length r \<le> 4" using width_ge [OF r] w by simp
    have "\<not> length r < 4"
    proof
      assume short: "length r < 4"
      from cell [OF r short] pad_row_short [OF short] show False
        by (auto dest: numeric_not_None)
    qed
    with le have len: "length r = 4" by simp
    have "numeric v" if "v \<in> set r" for v
    proof -
      from that obtain j where "j < length r" "v = r ! j" by (auto simp: in_set_conv_nth)
      with cell [OF r, of j] len show ?thesis by (simp add: pad_row_id)
    qed
    with len show "length r = 4 \<and> (\<forall>v \<in> set r. numeric v)" by simp
  qed
qed

lemma make_yearly_frame_yearly2: "make_yearly_frame yearly2 = Inr long2"
  by code_simp

subsection \<open>The yearly table\<close>

text \<open>
  Claim C2. For yearly tuples of four numeric fields (year, day, second-count,
  first-delta) whose sum second-count + first-delta fits the 64-bit column, the table
  is built, and it has exactly two rows per input tuple, one per tier: the row of tier
  first carries second-count + first-delta, the row of tier second carries
  second-count.
\<close>

theorem make_yearly_frame_totals:
  assumes "\<forall>r \<in> set yearly. length r = 4 \<and> (\<forall>v \<in> set r. numeric v)
               \<and> in_int64 (value_of (r ! 2) + value_of (r ! 3))"
  shows "\<exists>df. make_yearly_frame yearly = Inr df \<and>
           rows_of df =
             map (\<lambda>r. [PyInt (value_of (r ! 0)), PyInt (value_of (r ! 1)), Str ''first'',
                        PyInt (value_of (r ! 2) + value_of (r ! 3))]) yearly
             @ map (\<lambda>r. [PyInt (value_of (r ! 0)), PyInt (value_of (r ! 1)), Str ''second'',
                          PyInt (value_of (r ! 2))]) yearly"
proof (cases "yearly = []")
  case True
  then show ?thesis by (simp add: make_yearly_frame_empty rows_of_def nrows_def)
next
  case False
  from assms have "\<forall>r \<in> set yearly. length r = 4 \<and> (\<forall>v \<in> set r. numeric v)" by simp
  from make_yearly_frame_numeric [OF False this] assms show ?thesis
    by (simp add: rows_of_long wrap64_id)
qed

theorem make_yearly_frame_totals_witness:
  "\<exists>df. make_yearly_frame [[PyInt 2015, PyInt 1, Str ''50'', Str ''10'']] = Inr df \<and>
     rows_of df = [[PyInt 2015, PyInt 1, Str ''first'', PyInt 60],
                   [PyInt 2015, PyInt 1, Str ''second'', PyInt 50]]"
proof -
  have v: "value_of (PyInt 2015) = 2015" "value_of (PyInt 1) = 1"
    "value_of (Str ''50'') = 50" "value_of (Str ''10'') = 10"
    by (simp_all add: value_of_def to_numeric_cell_def int_literal_def isdigit_def
        digit_val_def in_int64_def)
  have n: "numeric (PyInt 2015)" "numeric (PyInt 1)" "numeric (Str ''50'')" "numeric (Str ''10'')"
    by (simp_all add: numeric_def to_numeric_cell_def int_literal_def isdigit_def
        digit_val_def in_int64_def)
  have "\<forall>r \<in> set [[PyInt 2015, PyInt 1, Str ''50'', Str ''10'']].
          length r = 4 \<and> (\<forall>v \<in> set r. numeric v)
          \<and> in_int64 (value_of (r ! 2) + value_of (r ! 3))"
    by (simp add: v n in_int64_def)
  from make_yearly_frame_totals [OF this] show ?thesis by (simp add: v)
qed

text \<open>
  Claim C9. In every table returned for a non-empty input of n tuples, the rows at
  positions 0, ..., n - 1 are the rows of tier first and the rows at positions
  n, ..., 2n - 1 are the rows of tier second, and in each block the row at offset i
  comes from the input tuple at position i.
\<close>

theorem make_yearly_frame_order:
  assumes "make_yearly_frame yearly = Inr df" and "yearly \<noteq> []"
  shows "length (rows_of df) = 2 * length yearly \<and>
         (\<forall>i < length yearly.
            rows_of df ! i =
              [PyInt (value_of (yearly ! i ! 0)), PyInt (value_of (yearly ! i ! 1)),
               Str ''first'', PyInt (wrap64 (value_of (yearly ! i ! 2) + value_of (yearly ! i ! 3)))]
          \<and> rows_of df ! (length yearly + i) =
              [PyInt (value_of (yearly ! i ! 0)), PyInt (value_of (yearly ! i ! 1)),
               Str ''second'', PyInt (value_of (yearly ! i ! 2))])"
proof -
  from make_yearly_frame_Inr_rows [OF assms]
  have "\<forall>r \<in> set yearly. length r = 4 \<and> (\<forall>v \<in> set r. numeric v)" .
  from make_yearly_frame_numeric [OF assms(2) this] assms(1)
  show ?thesis by (auto simp: rows_of_long nth_append)
qed

theorem make_yearly_frame_order_witness:
  "\<exists>df. make_yearly_frame yearly2 = Inr df \<and> length (rows_of df) = 4
     \<and> rows_of df ! 0 = [PyInt 2015, PyInt 1, Str ''first'', PyInt 60]
     \<and> rows_of df ! 1 = [PyInt 2015, PyInt 2, Str ''first'', PyInt 45]
     \<and> rows_of df ! 2 = [PyInt 2015, PyInt 1, Str ''second'', PyInt 50]
     \<and> rows_of df ! 3 = [PyInt 2015, PyInt 2, Str ''second'', PyInt 40]"
proof -
  have ne: "yearly2 \<noteq> []" by (simp add: yearly2_def)
  have v: "value_of (Str ''2015'') = 2015" "value_of (Str ''1'') = 1" "value_of (Str ''2'') = 2"
    "value_of (Str ''50'') = 50" "value_of (Str ''10'') = 10"
    "value_of (Str ''40'') = 40" "value_of (Str ''5'') = 5"
    by (simp_all add: value_of_def to_numeric_cell_def int_literal_def isdigit_def
        digit_val_def in_int64_def)
  have w: "wrap64 60 = 60" "wrap64 45 = 45" by (simp_all add: wrap64_def)
  note t = make_yearly_frame_order [OF make_yearly_frame_yearly2 ne]
  from t [THEN conjunct1] t [THEN conjunct2, rule_format, of 0]
    t [THEN conjunct2, rule_format, of 1]
  have "length (rows_of long2) = 4
     \<and> rows_of long2 ! 0 = [PyInt 2015, PyInt 1, Str ''first'', PyInt 60]
     \<and> rows_of long2 ! 1 = [PyInt 2015, PyInt 2, Str ''first'', PyInt 45]
     \<and> rows_of long2 ! 2 = [PyInt 2015, PyInt 1, Str ''second'', PyInt 50]
     \<and> rows_of long2 ! 3 = [PyInt 2015, PyInt 2, Str ''second'', PyInt 40]"
    by (simp add: yearly2_def v w numeral_2_eq_2 numeral_3_eq_3)
  with make_yearly_frame_yearly2 show ?thesis by blast
qed

text \<open>
  Claim C7. When the table is built from a sequence of yearly tuples, it is built from
  every permutation of the sequence as well, with the same multiset of rows (and the
  same column names and dtypes).
\<close>

theorem make_yearly_frame_permutation:
  assumes "mset permuted = mset yearly" and "make_yearly_frame yearly = Inr df"
  shows "\<exists>df'. make_yearly_frame permuted = Inr df' \<and> mset (rows_of df') = mset (rows_of df)
           \<and> schema df' = schema df"
proof (cases "yearly = []")
  case True
  with assms show ?thesis by simp
next
  case False
  from assms(1) have set: "set permuted = set yearly" by (rule mset_eq_setD)
  from assms(1) False have ne: "permuted \<noteq> []" by auto
  from make_yearly_frame_Inr_rows [OF assms(2) False]
  have rows: "\<forall>r \<in> set yearly. length r = 4 \<and> (\<forall>v \<in> set r. numeric v)" .
  then have rows': "\<forall>r \<in> set permuted. length r = 4 \<and> (\<forall>v \<in> set r. numeric v)"
    using set by simp
  have "mset (map f permuted @ map g permuted) = mset (map f yearly @ map g yearly)"
    for f g :: "pytuple \<Rightarrow> pytuple"
    using assms(1) by simp
  with make_yearly_frame_numeric [OF False rows] make_yearly_frame_numeric [OF ne rows'] assms(2)
  show ?thesis by (auto simp: rows_of_long schema_def)
qed

theorem make_yearly_frame_permutation_witness:
  "\<exists>df df'. make_yearly_frame yearly2 = Inr df \<and> make_yearly_frame (rev yearly2) = Inr df'
      \<and> mset (rows_of df') = mset (rows_of df) \<and> schema df' = schema df"
proof -
  have "mset (rev yearly2) = mset yearly2" by simp
  from make_yearly_frame_permutation [OF this make_yearly_frame_yearly2]
  show ?thesis using make_yearly_frame_yearly2 by blast
qed

subsection \<open>Tuples that are too short\<close>

text \<open>
  Claim C10. On a yearly page that has the \<^verbatim>\<open>pre\<close> block inside its main container,
  the extraction never raises: every anchor gives the year followed by the first
  three words of its text, and by fewer fields when the text has fewer words. No
  arity is checked. The page \<open>short_page\<close> has an anchor of two words: its tuple has
  three fields, and only the table construction fails on it.
\<close>

theorem parse_yearly_page_tuples:
  assumes "find_tag ''main'' page = Some m" and "find_tag ''pre'' m = Some pre"
  shows "\<exists>recs. parse_yearly_page year page = Inr recs
           \<and> length recs = length (find_all ''a'' pre)
           \<and> (\<forall>i < length recs.
                 recs ! i = Str year # map Str (take 3 (split (getText (find_all ''a'' pre ! i))))
               \<and> length (recs ! i) = 1 + min 3 (length (split (getText (find_all ''a'' pre ! i)))))"
  using assms
  by (simp add: parse_yearly_page_def yearly_record_def enumerate_list_nth min_def)

theorem parse_yearly_page_tuples_witness:
  "parse_yearly_page ''2015'' short_page = Inr [[Str ''2015'', Str ''25'', Str ''7276'']]
   \<and> make_yearly_frame [[Str ''2015'', Str ''25'', Str ''7276'']] = Inl ValueError"
proof -
  let ?a = "Tag ''a'' [] [NavigableString '' 25  '',
                          Tag ''span'' [''stats-both''] [NavigableString '' 7276'']]"
  let ?pre = "Tag ''pre'' [] [?a]"
  let ?m = "Tag ''main'' [] [?pre]"
  have m: "find_tag ''main'' short_page = Some ?m"
    by (simp add: find_tag_def short_page_def)
  have p: "find_tag ''pre'' ?m = Some ?pre"
    by (simp add: find_tag_def)
  have a: "find_all ''a'' ?pre = [?a]"
    by (simp add: find_all_def)
  have s: "split '' 25   7276'' = [''25'', ''7276'']"
    by (simp add: split_def isspace_def whitespace_def)
  from parse_yearly_page_tuples [OF m p, of "''2015''"] obtain recs where
    r: "parse_yearly_page ''2015'' short_page = Inr recs" "length recs = 1"
       "recs ! 0 = [Str ''2015'', Str ''25'', Str ''7276'']"
    unfolding a by (auto simp: s)
  then have "recs = [[Str ''2015'', Str ''25'', Str ''7276'']]"
    by (cases recs) auto
  moreover have "make_yearly_frame [[Str ''2015'', Str ''25'', Str ''7276'']] = Inl ValueError"
    by (simp add: make_yearly_frame_def DataFrame_def width_def)
  ultimately show ?thesis using r(1) by simp
qed

subsection \<open>Empty tables\<close>

text \<open>
  Claim C6, as the code has it. Both tables are built from the empty sequence without
  an error and have no rows. Their columns carry the names of the non-empty case, but
  not its dtypes: without rows the conversion to integers is not applied, so every
  column is left with dtype object, except the time column of the daily table, which
  is converted to durations.
\<close>

theorem empty_tables:
  "(\<exists>df. make_daily_frame [] = Inr df \<and> rows_of df = []
       \<and> schema df = [(''year'', object), (''day'', object), (''completion'', object),
                       (''position'', object), (''time'', timedelta64)])
   \<and> (\<exists>df. make_yearly_frame [] = Inr df \<and> rows_of df = []
       \<and> schema df = [(''year'', object), (''day'', object), (''completion'', object),
                       (''count'', object)])"
  by (simp add: make_daily_frame_empty make_yearly_frame_empty rows_of_def nrows_def schema_def)

text \<open>
  The claim as written fails on the dtypes: the columns year, day and position of the
  empty daily table are of dtype object, those of a table with one record are int64.
\<close>

theorem empty_table_dtypes_counterexample:
  "map_sum id schema (make_daily_frame []) =
     Inr [(''year'', object), (''day'', object), (''completion'', object),
          (''position'', object), (''time'', timedelta64)]
   \<and> map_sum id schema
       (make_daily_frame [[Str ''2015'', Str ''01'', Str ''second'', Str ''1'', Str ''00:12:34'']]) =
     Inr [(''year'', int64), (''day'', int64), (''completion'', object),
          (''position'', int64), (''time'', timedelta64)]"
  by code_simp


section \<open>Properties of the download\<close>

subsection \<open>File names\<close>

text \<open>\<^verbatim>\<open>str\<close> of an integer is read back by the numeric conversion, so it is injective, and
  so are the names of the files over the days of a month.\<close>

lemma digit_nth:
  "k < 10 \<Longrightarrow> isdigit (''0123456789'' ! k) \<and> digit_val (''0123456789'' ! k) = k"
  by (auto simp: eval_nat_numeral less_Suc_eq isdigit_def digit_val_def)

lemma isdigit_digit_char [simp]: "isdigit (digit_char d)"
  by (simp add: digit_char_def digit_nth)

lemma digit_val_digit_char [simp]: "digit_val (digit_char d) = d mod 10"
  by (simp add: digit_char_def digit_nth)

lemma str_nat_small: "n < 10 \<Longrightarrow> str_nat n = [digit_char n]"
  by (subst str_nat.simps) simp

lemma str_nat_large: "\<not> n < 10 \<Longrightarrow> str_nat n = str_nat (n div 10) @ [digit_char n]"
  by (subst str_nat.simps) simp

lemma str_nat_not_Nil [simp]: "str_nat n \<noteq> []"
  by (cases "n < 10") (simp_all add: str_nat_small str_nat_large)

lemma str_nat_digits: "list_all isdigit (str_nat n)"
  by (induction n rule: str_nat.induct) (subst str_nat.simps, simp)

lemma str_nat_value: "foldl (\<lambda>a c. 10 * a + int (digit_val c)) 0 (str_nat n) = int n"
proof (induction n rule: str_nat.induct)
  case (1 n)
  show ?case
  proof (cases "n < 10")
    case True
    then show ?thesis by (simp add: str_nat_small)
  next
    case False
    with "1" show ?thesis
      by (simp add: str_nat_large of_nat_div of_nat_mod)
  qed
qed

lemma int_literal_str_nat: "int_literal (str_nat n) = Some (int n)"
  by (simp add: int_literal_def str_nat_digits str_nat_value)

lemma str_nat_inj: "str_nat a = str_nat b \<Longrightarrow> a = b"
  by (metis int_literal_str_nat option.inject of_nat_eq_iff)

lemma hd_str_nat_digit: "isdigit (hd (str_nat n))"
  using str_nat_digits [of n] str_nat_not_Nil [of n]
  by (cases "str_nat n") simp_all

lemma str_int_inj: "str_int a = str_int b \<Longrightarrow> a = b"
proof -
  assume eq: "str_int a = str_int b"
  have minus: "\<not> isdigit CHR ''-''" by (simp add: isdigit_def)
  have "hd (str_nat n) \<noteq> CHR ''-''" for n
    using hd_str_nat_digit [of n] minus by auto
  then have nm: "str_nat n \<noteq> CHR ''-'' # s" "CHR ''-'' # s \<noteq> str_nat n" for n s
    by (metis list.sel(1))+
  show ?thesis
  proof (cases "a < 0")
    case True
    with eq nm have "b < 0" by (auto simp: str_int_def split: if_splits)
    with True eq have "nat (- a) = nat (- b)" by (auto simp: str_int_def dest: str_nat_inj)
    with True \<open>b < 0\<close> show ?thesis by simp
  next
    case False
    with eq nm have "\<not> b < 0" by (auto simp: str_int_def split: if_splits)
    with False eq have "nat a = nat b" by (auto simp: str_int_def dest: str_nat_inj)
    with False \<open>\<not> b < 0\<close> show ?thesis by simp
  qed
qed

lemma digit_char_plus_minus: "digit_char d \<noteq> CHR ''+'' \<and> digit_char d \<noteq> CHR ''-''"
  using isdigit_digit_char [of d] by (auto simp: isdigit_def)

lemma zfill2_str_nat:
  assumes "n < 100"
  shows "zfill 2 (str_nat n) = [digit_char (n div 10), digit_char n]"
proof (cases "n < 10")
  case True
  then have "digit_char (n div 10) = CHR ''0''" by (simp add: digit_char_def)
  with True show ?thesis
    by (simp add: str_nat_small zfill_def digit_char_plus_minus)
next
  case False
  with assms have "n div 10 < 10" by simp
  with False show ?thesis
    by (simp add: str_nat_large str_nat_small zfill_def)
qed

lemma zfill2_day:
  assumes "0 \<le> d" and "d < 100"
  shows "zfill 2 (str_int d) = [digit_char (nat d div 10), digit_char (nat d)]"
  using assms by (simp add: str_int_def zfill2_str_nat)

lemma zfill2_day_inj:
  assumes "0 \<le> d" "d < 100" "0 \<le> d'" "d' < 100"
    and "zfill 2 (str_int d) = zfill 2 (str_int d')"
  shows "d = d'"
proof -
  from assms have "digit_char (nat d div 10) = digit_char (nat d' div 10)"
    and "digit_char (nat d) = digit_char (nat d')"
    by (simp_all add: zfill2_day)
  then have "digit_val (digit_char (nat d div 10)) = digit_val (digit_char (nat d' div 10))"
    and "digit_val (digit_char (nat d)) = digit_val (digit_char (nat d'))"
    by simp_all
  then have m: "nat d div 10 mod 10 = nat d' div 10 mod 10" "nat d mod 10 = nat d' mod 10"
    by simp_all
  from assms(1-4) have "nat d < 100" "nat d' < 100" by simp_all
  then have "nat d div 10 < 10" "nat d' div 10 < 10" by simp_all
  with m(1) have "nat d div 10 = nat d' div 10" by simp
  with m(2) have "nat d = nat d'" by (metis mult_div_mod_eq)
  with assms(1,3) show ?thesis by simp
qed

lemma daily_file_inj:
  assumes "0 \<le> d" "d < 100" "0 \<le> d'" "d' < 100"
    and "daily_file y d = daily_file y' d'"
  shows "y = y' \<and> d = d'"
proof -
  let ?s = "\<lambda>d. ''-'' @ zfill 2 (str_int d) @ ''.html''"
  have len: "length (?s d) = length (?s d')"
    using assms(1-4) by (simp add: zfill2_day)
  from assms(5) have "str_int y @ ?s d = str_int y' @ ?s d'"
    by (simp add: daily_file_def)
  moreover have "(str_int y @ ?s d = str_int y' @ ?s d') = (str_int y = str_int y' \<and> ?s d = ?s d')"
    by (rule append_eq_append_conv, rule disjI2, rule len)
  ultimately have "str_int y = str_int y'" and "?s d = ?s d'"
    by blast+
  then show ?thesis
    using assms(1-4) by (auto dest: str_int_inj zfill2_day_inj)
qed

lemma yearly_file_inj: "yearly_file y = yearly_file y' \<Longrightarrow> y = y'"
  by (simp add: yearly_file_def str_int_inj)

subsection \<open>One round and the loops\<close>

lemma map_of_write_file:
  "map_of (write_file d n t) k = (if k = n then Some t else map_of d k)"
  by (induction d) auto

lemma fold_product:
  "fold (\<lambda>y. fold (f y) ds) ys w = fold (\<lambda>p. f (fst p) (snd p)) (List.product ys ds) w"
  by (induction ys arbitrary: w) (simp_all add: fold_map comp_def)

lemma download_day_requested:
  "requested (download_day net y d w) = requested w @ [daily_url y d]"
  by (simp add: download_day_def Let_def print_def sleep_def split: reply.splits option.splits)


lemma download_day_exists:
  "daily_data w \<noteq> None \<Longrightarrow> daily_data (download_day net y d w) \<noteq> None"
  by (auto simp: download_day_def Let_def print_def sleep_def split: reply.splits option.splits)


lemma download_day_stored:
  assumes "daily_data w \<noteq> None"
  shows "stored (daily_data (download_day net y d w)) k =
           (if k = daily_file y d then fetched (net (daily_url y d)) (stored (daily_data w) k)
            else stored (daily_data w) k)"
  using assms
  by (auto simp: download_day_def Let_def print_def sleep_def stored_def fetched_def
      map_of_write_file split: reply.splits option.splits)

lemma download_day_stdout:
  "\<exists>line. stdout (download_day net y d w) = stdout w @ [line]"
  by (simp add: download_day_def Let_def print_def sleep_def split: reply.splits option.splits)

lemma download_day_raised:
  "net (daily_url y d) = Raised e \<Longrightarrow>
     stdout (download_day net y d w) =
       stdout w @ [''Failed download/read of '' @ str_int y @ ''-'' @ str_int d @ '' with: '' @ e]"
  by (simp add: download_day_def Let_def print_def sleep_def)


lemma rounds_requested:
  "requested (fold (day_round net) ps w) = requested w @ map (\<lambda>p. daily_url (fst p) (snd p)) ps"
  by (induction ps arbitrary: w) (simp_all add: download_day_requested)

lemma rounds_exists:
  "daily_data w \<noteq> None \<Longrightarrow> daily_data (fold (day_round net) ps w) \<noteq> None"
proof (induction ps arbitrary: w)
  case Nil
  then show ?case by simp
next
  case (Cons p ps)
  have "daily_data (download_day net (fst p) (snd p) w) \<noteq> None"
    using Cons.prems by (rule download_day_exists)
  from Cons.IH [OF this] show ?case by simp
qed


lemma rounds_unchanged:
  assumes "daily_data w \<noteq> None" and "\<forall>p \<in> set ps. daily_file (fst p) (snd p) \<noteq> k"
  shows "stored (daily_data (fold (day_round net) ps w)) k = stored (daily_data w) k"
  using assms
proof (induction ps arbitrary: w)
  case Nil
  then show ?case by simp
next
  case (Cons p ps)
  have ex: "daily_data (download_day net (fst p) (snd p) w) \<noteq> None"
    using Cons.prems(1) by (rule download_day_exists)
  from Cons.prems(2) have rest: "\<forall>q \<in> set ps. daily_file (fst q) (snd q) \<noteq> k"
    and this: "k \<noteq> daily_file (fst p) (snd p)" by auto
  from Cons.IH [OF ex rest] this Cons.prems(1) show ?case
    by (simp add: download_day_stored)
qed

lemma rounds_stored:
  assumes "daily_data w \<noteq> None" and "distinct ps"
    and "\<forall>p \<in> set ps. 0 \<le> snd p \<and> snd p < 100" and "(y, d) \<in> set ps"
  shows "stored (daily_data (fold (day_round net) ps w)) (daily_file y d) =
           fetched (net (daily_url y d)) (stored (daily_data w) (daily_file y d))"
  using assms
proof (induction ps arbitrary: w)
  case Nil
  then show ?case by simp
next
  case (Cons p ps)
  let ?w = "download_day net (fst p) (snd p) w"
  have ex: "daily_data ?w \<noteq> None" using Cons.prems(1) by (rule download_day_exists)
  show ?case
  proof (cases "p = (y, d)")
    case True
    with Cons.prems have "\<forall>q \<in> set ps. daily_file (fst q) (snd q) \<noteq> daily_file y d"
      by (auto dest!: daily_file_inj [rotated -1])
    from rounds_unchanged [OF ex this] True Cons.prems(1) show ?thesis
      by (simp add: download_day_stored)
  next
    case False
    with Cons.prems have mem: "(y, d) \<in> set ps" and "distinct ps"
      and "\<forall>p \<in> set ps. 0 \<le> snd p \<and> snd p < 100" by auto
    from Cons.IH [OF ex this(2,3) mem]
    have "stored (daily_data (fold (day_round net) ps ?w)) (daily_file y d) =
            fetched (net (daily_url y d)) (stored (daily_data ?w) (daily_file y d))" .
    moreover have "daily_file y d \<noteq> daily_file (fst p) (snd p)"
    proof
      assume "daily_file y d = daily_file (fst p) (snd p)"
      moreover from Cons.prems(3,4) have "0 \<le> d" "d < 100" "0 \<le> snd p" "snd p < 100" by auto
      ultimately have "y = fst p \<and> d = snd p" by (intro daily_file_inj)
      with False show False by (cases p) simp
    qed
    ultimately show ?thesis using Cons.prems(1) by (simp add: download_day_stored)
  qed
qed

lemma rounds_stdout_mono:
  "x \<in> set (stdout w) \<Longrightarrow> x \<in> set (stdout (fold (day_round net) ps w))"
proof (induction ps arbitrary: w)
  case Nil
  then show ?case by simp
next
  case (Cons p ps)
  from download_day_stdout [of net "fst p" "snd p" w] Cons.prems
  have "x \<in> set (stdout (download_day net (fst p) (snd p) w))" by auto
  then show ?case using Cons.IH by simp
qed

lemma rounds_raised:
  assumes "(y, d) \<in> set ps" and "net (daily_url y d) = Raised e"
  shows "''Failed download/read of '' @ str_int y @ ''-'' @ str_int d @ '' with: '' @ e
           \<in> set (stdout (fold (day_round net) ps w))"
  using assms(1)
proof (induction ps arbitrary: w)
  case Nil
  then show ?case by simp
next
  case (Cons p ps)
  show ?case
  proof (cases "p = (y, d)")
    case True
    then show ?thesis
      using download_day_raised [of net y d e w] assms(2) by (simp add: rounds_stdout_mono)
  next
    case False
    with Cons show ?thesis by simp
  qed
qed

lemma download_daily_rounds:
  "download_daily net first_year last_year w =
     fold (day_round net) (List.product [first_year..last_year] [1..25])
       ((if daily_data w = None then
           (print (''Requesting all information for year '' @ str_int first_year @ '' to ''
                   @ str_int last_year) w)\<lparr>daily_data := Some []\<rparr>
         else print (''Requesting all information for year '' @ str_int first_year @ '' to ''
                     @ str_int last_year) w))"
  by (simp add: download_daily_def Let_def fold_product print_def)

lemma download_year_requested:
  "requested (download_year net y w) = requested w @ [yearly_url y]"
  by (simp add: download_year_def Let_def print_def sleep_def split: reply.splits option.splits)


lemma download_year_exists:
  "yearly_data w \<noteq> None \<Longrightarrow> yearly_data (download_year net y w) \<noteq> None"
  by (auto simp: download_year_def Let_def print_def sleep_def split: reply.splits option.splits)

lemma download_year_stored:
  assumes "yearly_data w \<noteq> None"
  shows "stored (yearly_data (download_year net y w)) k =
           (if k = yearly_file y then fetched (net (yearly_url y)) (stored (yearly_data w) k)
            else stored (yearly_data w) k)"
  using assms
  by (auto simp: download_year_def Let_def print_def sleep_def stored_def fetched_def
      map_of_write_file split: reply.splits option.splits)

lemma download_year_stdout:
  "\<exists>line. stdout (download_year net y w) = stdout w @ [line]"
  by (simp add: download_year_def Let_def print_def sleep_def split: reply.splits option.splits)

lemma download_year_raised:
  "net (yearly_url y) = Raised e \<Longrightarrow>
     stdout (download_year net y w) =
       stdout w @ [''Failed download/read of '' @ str_int y @ '' stats with: '' @ e]"
  by (simp add: download_year_def Let_def print_def sleep_def)

lemma years_requested:
  "requested (fold (download_year net) ys w) = requested w @ map yearly_url ys"
  by (induction ys arbitrary: w) (simp_all add: download_year_requested)


lemma years_exists:
  "yearly_data w \<noteq> None \<Longrightarrow> yearly_data (fold (download_year net) ys w) \<noteq> None"
proof (induction ys arbitrary: w)
  case Nil
  then show ?case by simp
next
  case (Cons y ys)
  have "yearly_data (download_year net y w) \<noteq> None"
    using Cons.prems by (rule download_year_exists)
  from Cons.IH [OF this] show ?case by simp
qed

lemma years_unchanged:
  assumes "yearly_data w \<noteq> None" and "\<forall>y \<in> set ys. yearly_file y \<noteq> k"
  shows "stored (yearly_data (fold (download_year net) ys w)) k = stored (yearly_data w) k"
  using assms
proof (induction ys arbitrary: w)
  case Nil
  then show ?case by simp
next
  case (Cons y ys)
  have ex: "yearly_data (download_year net y w) \<noteq> None"
    using Cons.prems(1) by (rule download_year_exists)
  from Cons.prems(2) have rest: "\<forall>q \<in> set ys. yearly_file q \<noteq> k"
    and this: "k \<noteq> yearly_file y" by auto
  from Cons.IH [OF ex rest] this Cons.prems(1) show ?case
    by (simp add: download_year_stored)
qed

lemma years_stored:
  assumes "yearly_data w \<noteq> None" and "distinct ys" and "y \<in> set ys"
  shows "stored (yearly_data (fold (download_year net) ys w)) (yearly_file y) =
           fetched (net (yearly_url y)) (stored (yearly_data w) (yearly_file y))"
  using assms
proof (induction ys arbitrary: w)
  case Nil
  then show ?case by simp
next
  case (Cons p ys)
  have ex: "yearly_data (download_year net p w) \<noteq> None"
    using Cons.prems(1) by (rule download_year_exists)
  show ?case
  proof (cases "p = y")
    case True
    with Cons.prems have "\<forall>q \<in> set ys. yearly_file q \<noteq> yearly_file y"
      by (auto dest: yearly_file_inj)
    from years_unchanged [OF ex this] True Cons.prems(1) show ?thesis
      by (simp add: download_year_stored)
  next
    case False
    with Cons.prems have mem: "y \<in> set ys" and d: "distinct ys" by auto
    from False have "yearly_file y \<noteq> yearly_file p" by (auto dest: yearly_file_inj)
    with Cons.IH [OF ex d mem] Cons.prems(1) show ?thesis
      by (simp add: download_year_stored)
  qed
qed

lemma years_stdout_mono:
  "x \<in> set (stdout w) \<Longrightarrow> x \<in> set (stdout (fold (download_year net) ys w))"
proof (induction ys arbitrary: w)
  case Nil
  then show ?case by simp
next
  case (Cons y ys)
  from download_year_stdout [of net y w] Cons.prems
  have "x \<in> set (stdout (download_year net y w))" by auto
  then show ?case using Cons.IH by simp
qed

lemma years_raised:
  assumes "y \<in> set ys" and "net (yearly_url y) = Raised e"
  shows "''Failed download/read of '' @ str_int y @ '' stats with: '' @ e
           \<in> set (stdout (fold (download_year net) ys w))"
  using assms(1)
proof (induction ys arbitrary: w)
  case Nil
  then show ?case by simp
next
  case (Cons p ys)
  show ?case
  proof (cases "p = y")
    case True
    then show ?thesis
      using download_year_raised [of net y e w] assms(2) by (simp add: years_stdout_mono)
  next
    case False
    with Cons show ?thesis by simp
  qed
qed

lemma download_daily_stored:
  assumes "first_year \<le> year" "year \<le> last_year" "1 \<le> day" "day \<le> 25"
  shows "stored (daily_data (download_daily net first_year last_year w)) (daily_file year day) =
           fetched (net (daily_url year day)) (stored (daily_data w) (daily_file year day))"
proof -
  let ?ps = "List.product [first_year..last_year] [1..25]"
  have d: "distinct ?ps" by (simp add: distinct_product)
  have r: "\<forall>p \<in> set ?ps. 0 \<le> snd p \<and> snd p < 100" by auto
  have m: "(year, day) \<in> set ?ps" using assms by simp
  show ?thesis
    unfolding download_daily_rounds
    by (subst rounds_stored [OF _ d r m]) (simp_all add: print_def stored_def)
qed

lemma download_yearly_rounds:
  "download_yearly net first_year last_year w =
     fold (download_year net) [first_year..last_year]
       (print (''Requesting stats information for year '' @ str_int first_year @ '' to ''
               @ str_int last_year)
          (if yearly_data w = None then w\<lparr>yearly_data := Some []\<rparr> else w))"
  by (simp add: download_yearly_def Let_def)

lemma download_yearly_stored:
  assumes "first_year \<le> year" "year \<le> last_year"
  shows "stored (yearly_data (download_yearly net first_year last_year w)) (yearly_file year) =
           fetched (net (yearly_url year)) (stored (yearly_data w) (yearly_file year))"
proof -
  have d: "distinct [first_year..last_year]" by simp
  have m: "year \<in> set [first_year..last_year]" using assms by simp
  show ?thesis
    unfolding download_yearly_rounds
    by (subst years_stored [OF _ d m]) (simp_all add: print_def stored_def)
qed





lemma map_product:
  "map f (List.product xs ys) = concat (map (\<lambda>x. map (\<lambda>y. f (x, y)) ys) xs)"
  by (induction xs) simp_all

lemma fetched_simps:
  "fetched (Response 200 body) old = Some (str_bytes body)"
  "status \<noteq> 200 \<Longrightarrow> fetched (Response status body) old = old"
  "fetched (Raised e) old = old"
  by (simp_all add: fetched_def)

lemma download_daily_requested:
  "requested (download_daily net first_year last_year w) =
     requested w @ concat (map (\<lambda>y. map (daily_url y) [1..25]) [first_year..last_year])"
  by (simp add: download_daily_rounds rounds_requested map_product print_def)

lemma download_yearly_requested:
  "requested (download_yearly net first_year last_year w) =
     requested w @ map yearly_url [first_year..last_year]"
  by (simp add: download_yearly_rounds years_requested print_def)

lemma download_daily_raised:
  assumes "first_year \<le> year" "year \<le> last_year" "1 \<le> day" "day \<le> 25"
    and "net (daily_url year day) = Raised e"
  shows "''Failed download/read of '' @ str_int year @ ''-'' @ str_int day @ '' with: '' @ e
           \<in> set (stdout (download_daily net first_year last_year w))"
proof -
  have "(year, day) \<in> set (List.product [first_year..last_year] [1..25])"
    using assms by simp
  then show ?thesis
    unfolding download_daily_rounds using assms(5) by (rule rounds_raised)
qed

lemma download_yearly_raised:
  assumes "first_year \<le> year" "year \<le> last_year" and "net (yearly_url year) = Raised e"
  shows "''Failed download/read of '' @ str_int year @ '' stats with: '' @ e
           \<in> set (stdout (download_yearly net first_year last_year w))"
proof -
  have "year \<in> set [first_year..last_year]" using assms by simp
  then show ?thesis
    unfolding download_yearly_rounds using assms(3) by (rule years_raised)
qed

lemma urls:
  "daily_url 2015 1 = ''http://www.adventofcode.com/2015/leaderboard/day/1''"
  "daily_url 2015 2 = ''http://www.adventofcode.com/2015/leaderboard/day/2''"
  "daily_url 2015 3 = ''http://www.adventofcode.com/2015/leaderboard/day/3''"
  "yearly_url 2015 = ''http://www.adventofcode.com/2015/stats''"
  "yearly_url 2016 = ''http://www.adventofcode.com/2016/stats''"
  "yearly_url 2017 = ''http://www.adventofcode.com/2017/stats''"
  by code_simp+

lemma files:
  "daily_file 2015 1 = ''2015-01.html''" "daily_file 2015 2 = ''2015-02.html''"
  "daily_file 2015 3 = ''2015-03.html''"
  "yearly_file 2015 = ''2015-stats.html''" "yearly_file 2016 = ''2016-stats.html''"
  "yearly_file 2017 = ''2017-stats.html''"
  by code_simp+





text \<open>
  Claim C4. For every day of the range whose request returns a status other than 200,
  the file of that day is after \<^verbatim>\<open>download_daily\<close> what it was before: no page is
  written. The same holds when the request raises, and then the line that reports the
  failure, with the key and the message of the exception, is among the lines printed.
  The download is a total function that raises nothing, and whatever the replies are
  it sends one request for every day of every year of the range, in order. The same
  holds for \<^verbatim>\<open>download_yearly\<close>.
\<close>

theorem download_skips_failures:
  "(first_year \<le> year \<and> year \<le> last_year \<and> 1 \<le> day \<and> day \<le> 25
      \<and> net (daily_url year day) = Response status body \<and> status \<noteq> 200 \<longrightarrow>
    stored (daily_data (download_daily net first_year last_year w)) (daily_file year day)
      = stored (daily_data w) (daily_file year day))
   \<and> (first_year \<le> year \<and> year \<le> last_year \<and> 1 \<le> day \<and> day \<le> 25
      \<and> net (daily_url year day) = Raised e \<longrightarrow>
    stored (daily_data (download_daily net first_year last_year w)) (daily_file year day)
      = stored (daily_data w) (daily_file year day)
    \<and> ''Failed download/read of '' @ str_int year @ ''-'' @ str_int day @ '' with: '' @ e
        \<in> set (stdout (download_daily net first_year last_year w)))
   \<and> requested (download_daily net first_year last_year w) =
       requested w @ concat (map (\<lambda>y. map (daily_url y) [1..25]) [first_year..last_year])
   \<and> (first_year \<le> year \<and> year \<le> last_year
      \<and> net (yearly_url year) = Response status body \<and> status \<noteq> 200 \<longrightarrow>
    stored (yearly_data (download_yearly net first_year last_year w)) (yearly_file year)
      = stored (yearly_data w) (yearly_file year))
   \<and> (first_year \<le> year \<and> year \<le> last_year \<and> net (yearly_url year) = Raised e \<longrightarrow>
    stored (yearly_data (download_yearly net first_year last_year w)) (yearly_file year)
      = stored (yearly_data w) (yearly_file year)
    \<and> ''Failed download/read of '' @ str_int year @ '' stats with: '' @ e
        \<in> set (stdout (download_yearly net first_year last_year w)))
   \<and> requested (download_yearly net first_year last_year w) =
       requested w @ map yearly_url [first_year..last_year]"
  using download_daily_stored [of first_year year last_year day net w]
    download_yearly_stored [of first_year year last_year net w]
    download_daily_raised [of first_year year last_year day net e w]
    download_yearly_raised [of first_year year last_year net e w]
  by (simp add: fetched_simps download_daily_requested download_yearly_requested)

theorem download_skips_failures_witness:
  "stored (daily_data (download_daily net1 2015 2016 world0)) ''2015-01.html'' = None
   \<and> stored (daily_data (download_daily net1 2015 2016 world0)) ''2015-02.html'' = None
   \<and> ''Failed download/read of 2015-2 with: timed out''
        \<in> set (stdout (download_daily net1 2015 2016 world0))
   \<and> length (requested (download_daily net1 2015 2016 world0)) = 50
   \<and> stored (yearly_data (download_yearly net1 2015 2016 world0)) ''2015-stats.html'' = None
   \<and> stored (yearly_data (download_yearly net1 2015 2016 world0)) ''2016-stats.html'' = None
   \<and> ''Failed download/read of 2016 stats with: reset''
        \<in> set (stdout (download_yearly net1 2015 2016 world0))
   \<and> requested (download_yearly net1 2015 2016 world0) =
        [''http://www.adventofcode.com/2015/stats'', ''http://www.adventofcode.com/2016/stats'']"
proof -
  have n: "net1 (daily_url 2015 1) = Response 404 ''Not Found''"
    "net1 (daily_url 2015 2) = Raised ''timed out''"
    "net1 (yearly_url 2015) = Response 500 []"
    "net1 (yearly_url 2016) = Raised ''reset''"
    by (simp_all add: urls net1_def)
  have s: "str_int 2015 = ''2015''" "str_int 2016 = ''2016''" "str_int 2 = ''2''"
    by code_simp+
  have w: "stored (daily_data world0) k = None" "stored (yearly_data world0) k = None"
    "requested world0 = []" for k
    by (simp_all add: world0_def stored_def)
  have l: "length (concat (map (\<lambda>y. map (daily_url y) [1..25]) [2015..2016])) = 50"
    by (simp add: length_concat comp_def upto_rec1 [of 2015 2016] )
  have u: "map yearly_url [2015..2016] =
      [''http://www.adventofcode.com/2015/stats'', ''http://www.adventofcode.com/2016/stats'']"
    by (simp add: upto_rec1 [of 2015 2016] upto_rec1 [of 2016 2016] urls)
  note t = download_skips_failures [of 2015 _ 2016 _ net1 _ _ world0]
  note a = t [of 2015 1 404 "''Not Found''", THEN conjunct1]
  note b = t [of 2015 2 _ _ "''timed out''", THEN conjunct2, THEN conjunct1]
  note c = t [of 2015 1, THEN conjunct2, THEN conjunct2, THEN conjunct1]
  note d = t [of 2015 1 500 "[]", THEN conjunct2, THEN conjunct2, THEN conjunct2, THEN conjunct1]
  note e = t [of 2016 1 _ _ "''reset''", THEN conjunct2, THEN conjunct2, THEN conjunct2,
      THEN conjunct2, THEN conjunct1]
  note f = t [of 2015 1, THEN conjunct2, THEN conjunct2, THEN conjunct2, THEN conjunct2,
      THEN conjunct2]
  from a b c d e f n show ?thesis
    by (simp add: files yearly_file_def s w l u urls)
qed


section \<open>Properties of the stored tables\<close>















end
